theory Spec2Isabelle
  imports Main "HOL-Library.AList"
begin

section \<open>JSON values as the driver sees them\<close>

text \<open>
  The driver (\<^verbatim>\<open>chaoswm/driver.py\<close>) works on the Python values that
  \<^verbatim>\<open>json\<close> decoding produces: \<^verbatim>\<open>None\<close>, booleans, integers, strings, lists
  and dictionaries with string keys. A dictionary is an association list in insertion
  order (the order in which Python iterates over it); a lookup takes the first binding
  of a key. Numbers are integers: floating-point numbers are not part of the model.
  Strings are byte strings, so text beyond ASCII is not covered.
\<close>

datatype json =
    JNull
  | JBool bool
  | JInt int
  | JStr string
  | JList "json list"
  | JObj "(string \<times> json) list"

text \<open>The exceptions the modelled code can raise.\<close>

datatype error = AttributeError | TypeError | KeyError | IndexError | ValueError

text \<open>
  Python's \<^verbatim>\<open>==\<close> on decoded JSON: structural, with \<^verbatim>\<open>True == 1\<close> and
  \<^verbatim>\<open>False == 0\<close>, lists compared element by element and dictionaries compared
  as finite maps (same number of keys, and every key of the left one bound to an
  equal value in the right one).
\<close>

fun py_eq :: "json \<Rightarrow> json \<Rightarrow> bool"
  and py_eq_list :: "json list \<Rightarrow> json list \<Rightarrow> bool"
  and py_eq_items :: "(string \<times> json) list \<Rightarrow> (string \<times> json) list \<Rightarrow> bool" where
  "py_eq JNull JNull = True"
| "py_eq (JBool a) (JBool b) = (a = b)"
| "py_eq (JBool a) (JInt j) = ((if a then 1 else 0) = j)"
| "py_eq (JInt i) (JBool b) = (i = (if b then 1 else 0))"
| "py_eq (JInt i) (JInt j) = (i = j)"
| "py_eq (JStr s) (JStr t) = (s = t)"
| "py_eq (JList xs) (JList ys) = py_eq_list xs ys"
| "py_eq (JObj a) (JObj b) = (length a = length b \<and> py_eq_items a b)"
| "py_eq _ _ = False"
| "py_eq_list [] [] = True"
| "py_eq_list (x # xs) (y # ys) = (py_eq x y \<and> py_eq_list xs ys)"
| "py_eq_list _ _ = False"
| "py_eq_items [] b = True"
| "py_eq_items ((k, v) # a) b =
     ((case map_of b k of None \<Rightarrow> False | Some w \<Rightarrow> py_eq v w) \<and> py_eq_items a b)"

text \<open>\<^verbatim>\<open>x in xs\<close> for a list: some element equals \<open>x\<close>.\<close>

fun py_in :: "json \<Rightarrow> json list \<Rightarrow> bool" where
  "py_in x [] = False"
| "py_in x (y # ys) = (py_eq y x \<or> py_in x ys)"

text \<open>Truthiness, as \<^verbatim>\<open>if v:\<close> tests it.\<close>

fun py_truthy :: "json \<Rightarrow> bool" where
  "py_truthy JNull = False"
| "py_truthy (JBool b) = b"
| "py_truthy (JInt i) = (i \<noteq> 0)"
| "py_truthy (JStr s) = (s \<noteq> [])"
| "py_truthy (JList xs) = (xs \<noteq> [])"
| "py_truthy (JObj d) = (d \<noteq> [])"

text \<open>\<^verbatim>\<open>d[k]\<close> with a string key: \<^verbatim>\<open>KeyError\<close> on a dictionary without the key,
  \<^verbatim>\<open>TypeError\<close> on anything that is not a dictionary.\<close>

fun py_getitem :: "json \<Rightarrow> string \<Rightarrow> error + json" where
  "py_getitem (JObj d) k = (case map_of d k of None \<Rightarrow> Inl KeyError | Some v \<Rightarrow> Inr v)"
| "py_getitem _ k = Inl TypeError"

text \<open>\<^verbatim>\<open>d.get(k)\<close>: \<^verbatim>\<open>None\<close> for a missing key; only dictionaries have the method.\<close>

fun py_get :: "json \<Rightarrow> string \<Rightarrow> error + json" where
  "py_get (JObj d) k = Inr (case map_of d k of None \<Rightarrow> JNull | Some v \<Rightarrow> v)"
| "py_get _ k = Inl AttributeError"

text \<open>\<^verbatim>\<open>d[k] = v\<close> with a string key: the binding is replaced in place or appended.\<close>

fun py_setitem :: "json \<Rightarrow> string \<Rightarrow> json \<Rightarrow> error + json" where
  "py_setitem (JObj d) k v = Inr (JObj (AList.update k v d))"
| "py_setitem _ k v = Inl TypeError"

text \<open>\<^verbatim>\<open>for x in v\<close>: the elements of a list, the keys of a dictionary, the
  characters of a string; nothing else is iterable.\<close>

fun py_iter :: "json \<Rightarrow> error + json list" where
  "py_iter (JList xs) = Inr xs"
| "py_iter (JObj d) = Inr (map (\<lambda>kv. JStr (fst kv)) d)"
| "py_iter (JStr s) = Inr (map (\<lambda>c. JStr [c]) s)"
| "py_iter _ = Inl TypeError"

section \<open>The filter predicates\<close>

text \<open>
  \<^verbatim>\<open>Wiremock.strict_filter\<close>: the loop over the filter's keys, then the function.
  \<^verbatim>\<open>
    intersec = node.keys() & _filter.keys()
    if len(intersec) != len(_filter.keys()): return False
    for key in _filter.keys():
        f = _filter[key]; comp = node.get(key)
        if f != comp: return False
    return True
  \<close>
\<close>

fun strict_loop :: "(string \<times> json) list \<Rightarrow> (string \<times> json) list \<Rightarrow> bool" where
  "strict_loop n [] = True"
| "strict_loop n ((key, f) # rest) =
     (let comp = (case map_of n key of None \<Rightarrow> JNull | Some v \<Rightarrow> v)
      in if \<not> py_eq f comp then False else strict_loop n rest)"

fun strict_filter :: "json \<Rightarrow> json \<Rightarrow> error + bool" where
  "strict_filter (JObj n) (JObj flt) =
     (let intersec = filter (\<lambda>k. k \<in> set (map fst n)) (map fst flt)
      in if length intersec \<noteq> length (map fst flt) then Inr False
         else Inr (strict_loop n flt))"
| "strict_filter _ _ = Inl AttributeError"

text \<open>
  \<^verbatim>\<open>Wiremock.recursive_filter\<close>: the same key test, then per key a recursive call
  for a nested mapping, a membership test for a list, and equality otherwise.
\<close>

fun recursive_filter :: "json \<Rightarrow> json \<Rightarrow> int \<Rightarrow> error + bool"
  and recursive_loop :: "(string \<times> json) list \<Rightarrow> (string \<times> json) list \<Rightarrow> int \<Rightarrow> error + bool" where
  "recursive_filter (JObj n) (JObj flt) depth =
     (let intersec = filter (\<lambda>k. k \<in> set (map fst n)) (map fst flt)
      in if length intersec \<noteq> length (map fst flt) then Inr False
         else recursive_loop n flt depth)"
| "recursive_filter _ _ depth = Inl AttributeError"
| "recursive_loop n [] depth = Inr True"
| "recursive_loop n ((key, f) # rest) depth =
     (let comp = (case map_of n key of None \<Rightarrow> JNull | Some v \<Rightarrow> v)
      in case f of
           JObj fd \<Rightarrow>
             (case recursive_filter comp (JObj fd) (depth + 1) of
                Inl e \<Rightarrow> Inl e
              | Inr b \<Rightarrow> if \<not> b then Inr False else recursive_loop n rest depth)
         | JList xs \<Rightarrow> if \<not> py_in comp xs then Inr False else recursive_loop n rest depth
         | _ \<Rightarrow> if \<not> py_eq f comp then Inr False else recursive_loop n rest depth)"

section \<open>The admin API as the driver's environment\<close>

text \<open>
  The driver talks to the mock server through \<^verbatim>\<open>requests\<close>. The server is the
  environment: its reply to the listing request and its reply to a \<^verbatim>\<open>PUT\<close> of a
  mapping under an id, each a status code and a decoded JSON body. Every call the
  driver makes is appended to a log, so that "no write was made" is a statement
  about the log. Transport failures (time-outs, bodies that are not JSON) are outside
  the model.
\<close>

record server =
  get_reply :: "int \<times> json"
  put_reply :: "json \<Rightarrow> json \<Rightarrow> int \<times> json"

datatype call = Get_mappings | Put_mapping json json

text \<open>
  \<^verbatim>\<open>Wiremock.mappings\<close>. On a status other than 200 the source formats its log line
  with \<^verbatim>\<open>r.text()\<close>; \<^verbatim>\<open>r.text\<close> is a string, and calling it raises
  \<^verbatim>\<open>TypeError\<close> before anything is returned.
\<close>

definition mappings :: "server \<Rightarrow> call list \<Rightarrow> (error + json) \<times> call list" where
  "mappings srv log =
     (let (status, res) = get_reply srv; log' = log @ [Get_mappings]
      in if status \<noteq> 200 then (Inl TypeError, log')
         else (py_getitem res ''mappings'', log'))"

text \<open>
  \<^verbatim>\<open>Wiremock.update_mapping\<close>: one \<^verbatim>\<open>PUT\<close>; \<^verbatim>\<open>None\<close> unless the status is 200.
\<close>

definition update_mapping :: "server \<Rightarrow> json \<Rightarrow> json \<Rightarrow> call list \<Rightarrow> json \<times> call list" where
  "update_mapping srv ident mapping log =
     (let (status, res) = put_reply srv ident mapping; log' = log @ [Put_mapping ident mapping]
      in if status \<noteq> 200 then (JNull, log') else (res, log'))"

section \<open>Filter resolution in the driver\<close>

text \<open>
  The body of the loop of \<^verbatim>\<open>Wiremock.filter_mappings\<close> that decides whether one
  mapping matches:
  \<^verbatim>\<open>
    if strict:
        node = mapping.get("request")
        matches = self.strict_filter(node, _filter)
    else:
        matches = self.recursive_filter(mapping, _filter)
  \<close>
\<close>

definition matches_of :: "json \<Rightarrow> bool \<Rightarrow> json \<Rightarrow> error + bool" where
  "matches_of flt strict mapping =
     (if strict then
        (case py_get mapping ''request'' of
           Inl e \<Rightarrow> Inl e
         | Inr node \<Rightarrow> strict_filter node flt)
      else recursive_filter mapping flt 0)"

fun filter_loop :: "json \<Rightarrow> bool \<Rightarrow> int \<Rightarrow> json list \<Rightarrow> json list \<Rightarrow> int \<Rightarrow> error + json list" where
  "filter_loop flt strict limit [] matching count = Inr matching"
| "filter_loop flt strict limit (mapping # rest) matching count =
     (case matches_of flt strict mapping of
        Inl e \<Rightarrow> Inl e
      | Inr matches \<Rightarrow>
          (let matching' = (if matches then matching @ [mapping] else matching);
               count' = (if matches then count + 1 else count)
           in if limit > 0 \<and> count' \<ge> limit then Inr matching'
              else filter_loop flt strict limit rest matching' count'))"

definition filter_mappings ::
  "server \<Rightarrow> json \<Rightarrow> bool \<Rightarrow> int \<Rightarrow> call list \<Rightarrow> (error + json list) \<times> call list" where
  "filter_mappings srv flt strict limit log =
     (case mappings srv log of
        (Inl e, log') \<Rightarrow> (Inl e, log')
      | (Inr ms, log') \<Rightarrow>
          (case py_iter ms of
             Inl e \<Rightarrow> (Inl e, log')
           | Inr xs \<Rightarrow> (filter_loop flt strict limit xs [] 0, log')))"

text \<open>
  \<^verbatim>\<open>Wiremock.filter_mapping\<close>:
  \<^verbatim>\<open>
    matching_mappings = self.filter_mappings(_filter, strict, limit=1)
    return matching_mappings[1] if len(matching_mappings) > 0 else None
  \<close>
  The index is the source's; reading a list beyond its end raises \<^verbatim>\<open>IndexError\<close>.
\<close>

definition filter_mapping ::
  "server \<Rightarrow> json \<Rightarrow> bool \<Rightarrow> call list \<Rightarrow> (error + json) \<times> call list" where
  "filter_mapping srv flt strict log =
     (case filter_mappings srv flt strict 1 log of
        (Inl e, log') \<Rightarrow> (Inl e, log')
      | (Inr matching, log') \<Rightarrow>
          (if length matching > 0 then
             (if 1 < length matching then (Inr (matching ! 1), log')
              else (Inl IndexError, log'))
           else (Inr JNull, log')))"

text \<open>What the theorems say about a mapping: its request block, when it has one.\<close>

fun request_block :: "json \<Rightarrow> (string \<times> json) list option" where
  "request_block (JObj d) =
     (case map_of d ''request'' of Some (JObj n) \<Rightarrow> Some n | _ \<Rightarrow> None)"
| "request_block _ = None"

text \<open>Whether a value is an object.\<close>

fun is_object :: "json \<Rightarrow> bool" where
  "is_object (JObj d) = True"
| "is_object _ = False"

text \<open>
  The strict predicate in the specification's words: every key of the filter is a key
  of the node, bound there to a value equal to the filter's.
\<close>

definition strict_spec :: "(string \<times> json) list \<Rightarrow> (string \<times> json) list \<Rightarrow> bool" where
  "strict_spec n flt =
     (\<forall>(k, v) \<in> set flt. case map_of n k of None \<Rightarrow> False | Some w \<Rightarrow> py_eq v w)"

text \<open>A server that answers the listing request with status 200 and the given mappings.\<close>

definition lists :: "server \<Rightarrow> json list \<Rightarrow> bool" where
  "lists srv ms = (fst (get_reply srv) = 200 \<and>
     py_getitem (snd (get_reply srv)) ''mappings'' = Inr (JList ms))"

section \<open>Mutations of the response block\<close>

text \<open>
  \<^verbatim>\<open>mapping["response"][k] = v\<close>. The response dictionary is changed in place, so
  the change is visible through the mapping: the model writes the changed response
  back under the key it was read from.
\<close>

definition set_response :: "json \<Rightarrow> string \<Rightarrow> json \<Rightarrow> error + json" where
  "set_response mapping k v =
     (case py_getitem mapping ''response'' of
        Inl e \<Rightarrow> Inl e
      | Inr resp \<Rightarrow>
          (case py_setitem resp k v of
             Inl e \<Rightarrow> Inl e
           | Inr resp' \<Rightarrow> py_setitem mapping ''response'' resp'))"

text \<open>
  \<^verbatim>\<open>int(x)\<close> in base ten. For a string: surrounding whitespace (tab, line feed,
  vertical tab, form feed, carriage return and space; the separators 28 to 31 are not
  dropped) is removed, one sign is allowed, then digits, where single underscores may
  stand between digits. A string
  that is not of this form raises \<^verbatim>\<open>ValueError\<close>, a value that is no number and no
  string raises \<^verbatim>\<open>TypeError\<close>. The interpreter's configurable bound on the number
  of digits is not modelled.
\<close>

definition is_space :: "char \<Rightarrow> bool" where
  "is_space c = (let n = (of_char c :: nat) in (9 \<le> n \<and> n \<le> 13) \<or> n = 32)"

definition is_digit :: "char \<Rightarrow> bool" where
  "is_digit c = (let n = (of_char c :: nat) in 48 \<le> n \<and> n \<le> 57)"

definition digit_val :: "char \<Rightarrow> int" where
  "digit_val c = int (of_char c) - 48"

fun parse_digits :: "string \<Rightarrow> int \<Rightarrow> int option" where
  "parse_digits [] acc = Some acc"
| "parse_digits (c # cs) acc =
     (if is_digit c then parse_digits cs (10 * acc + digit_val c)
      else if c = CHR ''_'' then
        (case cs of
           [] \<Rightarrow> None
         | d # _ \<Rightarrow> if is_digit d then parse_digits cs acc else None)
      else None)"

definition parse_unsigned :: "string \<Rightarrow> int option" where
  "parse_unsigned s =
     (case s of [] \<Rightarrow> None | c # _ \<Rightarrow> if is_digit c then parse_digits s 0 else None)"

definition parse_int :: "string \<Rightarrow> int option" where
  "parse_int s =
     (let t = rev (dropWhile is_space (rev (dropWhile is_space s)))
      in case t of
           [] \<Rightarrow> None
         | c # cs \<Rightarrow>
             if c = CHR ''-'' then map_option uminus (parse_unsigned cs)
             else if c = CHR ''+'' then parse_unsigned cs
             else parse_unsigned t)"

fun py_int :: "json \<Rightarrow> error + int" where
  "py_int (JInt i) = Inr i"
| "py_int (JBool b) = Inr (if b then 1 else 0)"
| "py_int (JStr s) = (case parse_int s of None \<Rightarrow> Inl ValueError | Some i \<Rightarrow> Inr i)"
| "py_int _ = Inl TypeError"

text \<open>\<^verbatim>\<open>len(v)\<close> and \<^verbatim>\<open>v.append(x)\<close>.\<close>

fun py_len :: "json \<Rightarrow> error + int" where
  "py_len (JList xs) = Inr (int (length xs))"
| "py_len (JObj d) = Inr (int (length d))"
| "py_len (JStr s) = Inr (int (length s))"
| "py_len _ = Inl TypeError"

fun py_append :: "json \<Rightarrow> json \<Rightarrow> error + json" where
  "py_append (JList xs) x = Inr (JList (xs @ [x]))"
| "py_append _ x = Inl AttributeError"

section \<open>The mutation operations of the driver\<close>

text \<open>
  Each operation takes the list of mappings it was handed and the log of calls so far;
  it returns what the Python function returns (\<open>JNull\<close> for \<^verbatim>\<open>None\<close>) or the
  exception it raises, the list of mappings as the in-place assignments left it, and
  the log.
\<close>

definition AVAILABLE_FAULTS :: "string list" where
  "AVAILABLE_FAULTS =
     [''EMPTY_RESPONSE'', ''MALFORMED_RESPONSE_CHUNK'', ''RANDOM_DATA_THEN_CLOSE'',
      ''CONNECTION_RESET_BY_PEER'']"

text \<open>The loop of \<^verbatim>\<open>Wiremock.update_fault\<close>, then the function with its two guards.\<close>

fun fault_loop ::
  "server \<Rightarrow> string \<Rightarrow> json list \<Rightarrow> json list \<Rightarrow> call list
     \<Rightarrow> (error + json) \<times> json list \<times> call list" where
  "fault_loop srv fault [] ids log = (Inr (JList ids), [], log)"
| "fault_loop srv fault (mapping # rest) ids log =
     (case py_getitem mapping ''id'' of
        Inl e \<Rightarrow> (Inl e, mapping # rest, log)
      | Inr ident \<Rightarrow>
          (case set_response mapping ''fault'' (JStr fault) of
             Inl e \<Rightarrow> (Inl e, mapping # rest, log)
           | Inr mapping' \<Rightarrow>
               (case update_mapping srv ident mapping' log of
                  (r, log') \<Rightarrow>
                    if py_truthy r then
                      (case fault_loop srv fault rest (ids @ [ident]) log' of
                         (res, rest', log'') \<Rightarrow> (res, mapping' # rest', log''))
                    else (Inr JNull, mapping' # rest, log'))))"

definition update_fault ::
  "server \<Rightarrow> json \<Rightarrow> string \<Rightarrow> call list \<Rightarrow> (error + json) \<times> json \<times> call list" where
  "update_fault srv ms fault log =
     (case ms of
        JList xs \<Rightarrow>
          if fault \<notin> set AVAILABLE_FAULTS then (Inr JNull, ms, log)
          else (case fault_loop srv fault xs [] log of
                  (res, xs', log') \<Rightarrow> (res, JList xs', log'))
      | _ \<Rightarrow> (Inr JNull, ms, log))"

text \<open>
  \<^verbatim>\<open>Wiremock.update_status_code_and_body\<close>. The body fields:
  \<^verbatim>\<open>
    if body_file_name:
        mapping["response"]["bodyFileName"] = body_file_name
        mapping["response"]["body"] = None
    elif body:
        mapping["response"]["bodyFileName"] = None
        mapping["response"]["body"] = body
  \<close>
\<close>

definition set_body_fields :: "json \<Rightarrow> json \<Rightarrow> json \<Rightarrow> error + json" where
  "set_body_fields mapping body body_file_name =
     (if py_truthy body_file_name then
        (case set_response mapping ''bodyFileName'' body_file_name of
           Inl e \<Rightarrow> Inl e
         | Inr m \<Rightarrow> set_response m ''body'' JNull)
      else if py_truthy body then
        (case set_response mapping ''bodyFileName'' JNull of
           Inl e \<Rightarrow> Inl e
         | Inr m \<Rightarrow> set_response m ''body'' body)
      else Inr mapping)"

fun status_loop ::
  "server \<Rightarrow> json \<Rightarrow> json \<Rightarrow> json \<Rightarrow> json list \<Rightarrow> json list \<Rightarrow> call list
     \<Rightarrow> (error + json) \<times> json list \<times> call list" where
  "status_loop srv status_code body body_file_name [] ids log = (Inr (JList ids), [], log)"
| "status_loop srv status_code body body_file_name (mapping # rest) ids log =
     (case py_getitem mapping ''id'' of
        Inl e \<Rightarrow> (Inl e, mapping # rest, log)
      | Inr ident \<Rightarrow>
          (case set_response mapping ''status'' status_code of
             Inl e \<Rightarrow> (Inl e, mapping # rest, log)
           | Inr m1 \<Rightarrow>
               (case set_body_fields m1 body body_file_name of
                  Inl e \<Rightarrow> (Inl e, m1 # rest, log)
                | Inr mapping' \<Rightarrow>
                    (case update_mapping srv ident mapping' log of
                       (r, log') \<Rightarrow>
                         if py_truthy r then
                           (case status_loop srv status_code body body_file_name rest
                                   (ids @ [ident]) log' of
                              (res, rest', log'') \<Rightarrow> (res, mapping' # rest', log''))
                         else (Inr JNull, mapping' # rest, log')))))"

text \<open>
  The status code is checked inside \<^verbatim>\<open>try\<close>: whatever \<^verbatim>\<open>int\<close> raises is caught
  and the function returns \<^verbatim>\<open>None\<close>, as it does for a number outside 100..599.
\<close>

definition update_status_code_and_body ::
  "server \<Rightarrow> json \<Rightarrow> json \<Rightarrow> json \<Rightarrow> json \<Rightarrow> call list
     \<Rightarrow> (error + json) \<times> json \<times> call list" where
  "update_status_code_and_body srv ms status_code body body_file_name log =
     (case ms of
        JList xs \<Rightarrow>
          (case py_int status_code of
             Inl e \<Rightarrow> (Inr JNull, ms, log)
           | Inr status_code_number \<Rightarrow>
               if status_code_number < 100 \<or> status_code_number > 599
               then (Inr JNull, ms, log)
               else (case status_loop srv status_code body body_file_name xs [] log of
                       (res, xs', log') \<Rightarrow> (res, JList xs', log')))
      | _ \<Rightarrow> (Inr JNull, ms, log))"

text \<open>
  \<^verbatim>\<open>Wiremock.fixed_delay\<close>:
  \<^verbatim>\<open>
    for m in mappings:
        m["response"]["fixedDelayMilliseconds"] = fixedDelayMilliseconds
        m["response"]["delayDistribution"] = None
        result = self.update_mapping(m["id"], m)
        if result: updated_ids.append(m["id"])
    return updated_ids
  \<close>
\<close>

fun delay_loop ::
  "server \<Rightarrow> json \<Rightarrow> json list \<Rightarrow> json list \<Rightarrow> call list
     \<Rightarrow> (error + json) \<times> json list \<times> call list" where
  "delay_loop srv d [] updated_ids log = (Inr (JList updated_ids), [], log)"
| "delay_loop srv d (m # rest) updated_ids log =
     (case set_response m ''fixedDelayMilliseconds'' d of
        Inl e \<Rightarrow> (Inl e, m # rest, log)
      | Inr m1 \<Rightarrow>
          (case set_response m1 ''delayDistribution'' JNull of
             Inl e \<Rightarrow> (Inl e, m1 # rest, log)
           | Inr m2 \<Rightarrow>
               (case py_getitem m2 ''id'' of
                  Inl e \<Rightarrow> (Inl e, m2 # rest, log)
                | Inr ident \<Rightarrow>
                    (case update_mapping srv ident m2 log of
                       (result, log') \<Rightarrow>
                         (case delay_loop srv d rest
                                 (if py_truthy result then updated_ids @ [ident]
                                  else updated_ids) log' of
                            (res, rest', log'') \<Rightarrow> (res, m2 # rest', log''))))))"

text \<open>
  The function does not test that it was handed a list: it iterates over whatever it
  received. Only the elements of a list are objects that the assignments can change.
\<close>

definition fixed_delay ::
  "server \<Rightarrow> json \<Rightarrow> json \<Rightarrow> call list \<Rightarrow> (error + json) \<times> json \<times> call list" where
  "fixed_delay srv ms d log =
     (case py_iter ms of
        Inl e \<Rightarrow> (Inl e, ms, log)
      | Inr xs \<Rightarrow>
          (case delay_loop srv d xs [] log of
             (res, xs', log') \<Rightarrow>
               (res, (case ms of JList _ \<Rightarrow> JList xs' | _ \<Rightarrow> ms), log')))"

text \<open>What the theorems say about a mapping: its id and a field of its response block.\<close>

fun mapping_id :: "json \<Rightarrow> json option" where
  "mapping_id (JObj d) = map_of d ''id''"
| "mapping_id _ = None"

fun response_field :: "json \<Rightarrow> string \<Rightarrow> json option" where
  "response_field (JObj d) k =
     (case map_of d ''response'' of Some (JObj r) \<Rightarrow> map_of r k | _ \<Rightarrow> None)"
| "response_field _ k = None"

text \<open>A mapping the mutations can work on: an object with an id and a response object.\<close>

fun well_formed :: "json \<Rightarrow> bool" where
  "well_formed (JObj d) =
     (case map_of d ''id'' of
        None \<Rightarrow> False
      | Some _ \<Rightarrow> (case map_of d ''response'' of Some (JObj r) \<Rightarrow> True | _ \<Rightarrow> False))"
| "well_formed _ = False"

text \<open>Whether the server's reply to a write makes \<^verbatim>\<open>update_mapping\<close> return a truthy value.\<close>

definition write_ok :: "server \<Rightarrow> json \<Rightarrow> json \<Rightarrow> bool" where
  "write_ok srv ident m = py_truthy (fst (update_mapping srv ident m []))"

text \<open>
  What the status operation and the delay operation are to have done to a mapping
  \<open>m\<close>, read off the mapping \<open>m'\<close> they leave: the id is the same and the response
  fields are bound as stated.
\<close>

definition status_done :: "json \<Rightarrow> json \<Rightarrow> json \<Rightarrow> json \<Rightarrow> bool" where
  "status_done status_code body m m' =
     (mapping_id m' = mapping_id m
      \<and> response_field m' ''status'' = Some status_code
      \<and> response_field m' ''body'' = Some body
      \<and> response_field m' ''bodyFileName'' = Some JNull)"

definition delay_done :: "json \<Rightarrow> json \<Rightarrow> json \<Rightarrow> bool" where
  "delay_done d m m' =
     (mapping_id m' = mapping_id m
      \<and> response_field m' ''fixedDelayMilliseconds'' = Some d
      \<and> response_field m' ''delayDistribution'' = Some JNull)"

text \<open>A server that accepts every write of a well-formed mapping.\<close>

definition accepts :: "server \<Rightarrow> bool" where
  "accepts srv = (\<forall>ident m. well_formed m \<longrightarrow> write_ok srv ident m)"

section \<open>The actions\<close>

text \<open>
  \<^verbatim>\<open>chaoswm/actions.py\<close> calls driver methods that \<^verbatim>\<open>chaoswm/driver.py\<close> does not
  define (\<^verbatim>\<open>mappings_by_request\<close>, \<^verbatim>\<open>mappings_by_metadata\<close>,
  \<^verbatim>\<open>mapping_by_request\<close>, \<^verbatim>\<open>update_status_code\<close>) and helpers of
  \<^verbatim>\<open>chaoswm/utils.py\<close> (\<^verbatim>\<open>check_configuration\<close>, \<^verbatim>\<open>get_wm_params\<close>). They are
  parameters of the model: a lookup takes its argument and the log and returns a value
  or an exception, and the log.
\<close>

type_synonym lookup = "json \<Rightarrow> call list \<Rightarrow> (error + json) \<times> call list"

text \<open>
  \<^verbatim>\<open>_filter_mappings(f, driver)\<close>. Its first test reads \<^verbatim>\<open>if not filter:\<close>; the
  parameter is called \<^verbatim>\<open>f\<close>, so \<^verbatim>\<open>filter\<close> is Python's builtin, which is truthy.
\<close>

definition builtin_filter_truthy :: bool where
  "builtin_filter_truthy = True"

definition actions_filter_mappings ::
  "lookup \<Rightarrow> lookup \<Rightarrow> json \<Rightarrow> call list \<Rightarrow> (error + json) \<times> call list" where
  "actions_filter_mappings mappings_by_request mappings_by_metadata f log =
     (if \<not> builtin_filter_truthy then (Inl ValueError, log)
      else case f of
        JObj d \<Rightarrow>
          (let filter_keys = map fst d
           in if ''request'' \<in> set filter_keys \<and> ''metadata'' \<in> set filter_keys
              then (Inl ValueError, log)
              else if ''request'' \<in> set filter_keys then
                (case py_getitem f ''request'' of
                   Inl e \<Rightarrow> (Inl e, log)
                 | Inr r \<Rightarrow> mappings_by_request r log)
              else if ''metadata'' \<in> set filter_keys then
                (case py_getitem f ''metadata'' of
                   Inl e \<Rightarrow> (Inl e, log)
                 | Inr r \<Rightarrow> mappings_by_metadata r log)
              else mappings_by_request f log)
      | _ \<Rightarrow> (Inl AttributeError, log))"

text \<open>
  \<^verbatim>\<open>params = get_wm_params(configuration)\<close> followed by
  \<^verbatim>\<open>Wiremock(url=params["url"], timeout=params["timeout"])\<close>: with a url and no
  host and port the constructor makes no connection.
\<close>

definition wm_client :: "('c \<Rightarrow> error + json) \<Rightarrow> 'c \<Rightarrow> error + json \<times> json" where
  "wm_client get_wm_params configuration =
     (case get_wm_params configuration of
        Inl e \<Rightarrow> Inl e
      | Inr params \<Rightarrow>
          (case py_getitem params ''url'' of
             Inl e \<Rightarrow> Inl e
           | Inr url \<Rightarrow>
               (case py_getitem params ''timeout'' of
                  Inl e \<Rightarrow> Inl e
                | Inr timeout \<Rightarrow> Inr (url, timeout))))"

text \<open>
  The loop of the actions \<^verbatim>\<open>fixed_delay\<close> and \<^verbatim>\<open>update_mappings_fault\<close> that
  collects the mappings of every filter, and the action \<^verbatim>\<open>fixed_delay\<close>.
\<close>

fun resolve_loop ::
  "lookup \<Rightarrow> lookup \<Rightarrow> json list \<Rightarrow> json list \<Rightarrow> call list
     \<Rightarrow> (error + json list) \<times> call list" where
  "resolve_loop mbr mbm [] mappings_to_update log = (Inr mappings_to_update, log)"
| "resolve_loop mbr mbm (f # fs) mappings_to_update log =
     (case actions_filter_mappings mbr mbm f log of
        (Inl e, log') \<Rightarrow> (Inl e, log')
      | (Inr ms, log') \<Rightarrow>
          if py_truthy ms then
            (case py_iter ms of
               Inl e \<Rightarrow> (Inl e, log')
             | Inr xs \<Rightarrow> resolve_loop mbr mbm fs (mappings_to_update @ xs) log')
          else resolve_loop mbr mbm fs mappings_to_update log')"

definition actions_fixed_delay ::
  "('c \<Rightarrow> error + json) \<Rightarrow> lookup \<Rightarrow> lookup \<Rightarrow> server \<Rightarrow> json \<Rightarrow> json \<Rightarrow> 'c \<Rightarrow> call list
     \<Rightarrow> (error + json) \<times> call list" where
  "actions_fixed_delay get_wm_params mbr mbm srv flt d configuration log =
     (case wm_client get_wm_params configuration of
        Inl e \<Rightarrow> (Inl e, log)
      | Inr w \<Rightarrow>
          (case py_iter flt of
             Inl e \<Rightarrow> (Inl e, log)
           | Inr fs \<Rightarrow>
               (case resolve_loop mbr mbm fs [] log of
                  (Inl e, log') \<Rightarrow> (Inl e, log')
                | (Inr mappings_to_update, log') \<Rightarrow>
                    if length mappings_to_update > 0 then
                      (case fixed_delay srv (JList mappings_to_update) d log' of
                         (res, ms', log'') \<Rightarrow> (res, log''))
                    else (Inr (JList []), log'))))"

text \<open>
  \<^verbatim>\<open>update_mappings_status_code\<close>:
  \<^verbatim>\<open>
    mappings_to_update: List[Any] = None
    for f in filter:
        mapping = w.mapping_by_request(f)
        if mapping is None:
            logger.error("Mapping {} {} not found".format(
                mapping["request"]["method"], mapping["request"]["url"]))
            continue
        mappings_to_update.append(mapping)
    if len(mappings_to_update) > 0:
        return w.update_status_code(mappings_to_update, status_code)
    else:
        return []
  \<close>
  The arguments of the log line are evaluated before the line is logged.
\<close>

definition not_found_line :: "json \<Rightarrow> error + unit" where
  "not_found_line mapping =
     (case py_getitem mapping ''request'' of
        Inl e \<Rightarrow> Inl e
      | Inr r \<Rightarrow>
          (case py_getitem r ''method'' of
             Inl e \<Rightarrow> Inl e
           | Inr _ \<Rightarrow>
               (case py_getitem mapping ''request'' of
                  Inl e \<Rightarrow> Inl e
                | Inr r' \<Rightarrow>
                    (case py_getitem r' ''url'' of Inl e \<Rightarrow> Inl e | Inr _ \<Rightarrow> Inr ()))))"

fun status_resolve_loop ::
  "lookup \<Rightarrow> json list \<Rightarrow> json \<Rightarrow> call list \<Rightarrow> (error + json) \<times> call list" where
  "status_resolve_loop mapping_by_request [] mappings_to_update log =
     (Inr mappings_to_update, log)"
| "status_resolve_loop mapping_by_request (f # fs) mappings_to_update log =
     (case mapping_by_request f log of
        (Inl e, log') \<Rightarrow> (Inl e, log')
      | (Inr mapping, log') \<Rightarrow>
          if mapping = JNull then
            (case not_found_line mapping of
               Inl e \<Rightarrow> (Inl e, log')
             | Inr _ \<Rightarrow> status_resolve_loop mapping_by_request fs mappings_to_update log')
          else
            (case py_append mappings_to_update mapping of
               Inl e \<Rightarrow> (Inl e, log')
             | Inr mappings_to_update' \<Rightarrow>
                 status_resolve_loop mapping_by_request fs mappings_to_update' log'))"

definition update_mappings_status_code ::
  "('c \<Rightarrow> bool) \<Rightarrow> ('c \<Rightarrow> error + json) \<Rightarrow> lookup
     \<Rightarrow> (json \<Rightarrow> json \<Rightarrow> call list \<Rightarrow> (error + json) \<times> call list)
     \<Rightarrow> json \<Rightarrow> json \<Rightarrow> 'c \<Rightarrow> call list \<Rightarrow> (error + json) \<times> call list" where
  "update_mappings_status_code check_configuration get_wm_params mapping_by_request
       update_status_code status_code flt configuration log =
     (if \<not> check_configuration configuration then (Inr (JList []), log)
      else if \<not> py_truthy status_code then (Inr (JList []), log)
      else case wm_client get_wm_params configuration of
        Inl e \<Rightarrow> (Inl e, log)
      | Inr w \<Rightarrow>
          (let mappings_to_update = JNull
           in case py_iter flt of
                Inl e \<Rightarrow> (Inl e, log)
              | Inr fs \<Rightarrow>
                  (case status_resolve_loop mapping_by_request fs mappings_to_update log of
                     (Inl e, log') \<Rightarrow> (Inl e, log')
                   | (Inr mappings_to_update', log') \<Rightarrow>
                       (case py_len mappings_to_update' of
                          Inl e \<Rightarrow> (Inl e, log')
                        | Inr n \<Rightarrow>
                            if n > 0
                            then update_status_code mappings_to_update' status_code log'
                            else (Inr (JList []), log')))))"

section \<open>Example data\<close>

text \<open>
  Two mappings as the server lists them, a server that holds them and accepts every
  write, and a server that refuses every write.
\<close>

definition mapping_get :: json where
  "mapping_get = JObj [
     (''id'', JInt 1),
     (''request'', JObj [(''method'', JStr ''GET''), (''url'', JStr ''/x'')]),
     (''response'', JObj [(''status'', JInt 200), (''body'', JStr ''old'')])]"

definition mapping_post :: json where
  "mapping_post = JObj [
     (''id'', JInt 2),
     (''request'', JObj [(''method'', JStr ''POST''), (''url'', JStr ''/y'')]),
     (''response'', JObj [(''status'', JInt 200)])]"

text \<open>The first mapping after a status change with an empty body, and after a delay.\<close>

definition mapping_get_status :: json where
  "mapping_get_status = JObj [
     (''id'', JInt 1),
     (''request'', JObj [(''method'', JStr ''GET''), (''url'', JStr ''/x'')]),
     (''response'', JObj [(''status'', JStr ''404''), (''body'', JStr ''old'')])]"

definition mapping_get_delayed :: json where
  "mapping_get_delayed = JObj [
     (''id'', JInt 1),
     (''request'', JObj [(''method'', JStr ''GET''), (''url'', JStr ''/x'')]),
     (''response'', JObj [(''status'', JInt 200), (''body'', JStr ''old''),
        (''fixedDelayMilliseconds'', JInt 300), (''delayDistribution'', JNull)])]"

definition example_server :: server where
  "example_server = \<lparr>
     get_reply = (200, JObj [(''mappings'', JList [mapping_get, mapping_post])]),
     put_reply = (\<lambda>ident m. (200, m)) \<rparr>"

definition refusing_server :: server where
  "refusing_server = \<lparr>
     get_reply = (200, JObj [(''mappings'', JList [mapping_get, mapping_post])]),
     put_reply = (\<lambda>ident m. (500, JNull)) \<rparr>"

text \<open>
  Stand-ins for the parameters of the actions: a configuration lookup that yields a
  url and a time-out, and a lookup that lists the server once and answers with the
  first example mapping.
\<close>

definition example_params :: "unit \<Rightarrow> error + json" where
  "example_params configuration =
     Inr (JObj [(''url'', JStr ''http://localhost:8080''), (''timeout'', JInt 1)])"

definition first_lookup :: lookup where
  "first_lookup r log = (Inr (JList [mapping_get]), log @ [Get_mappings])"

text \<open>
  Stand-ins for \<^verbatim>\<open>check_configuration\<close> and for the driver's absent
  \<^verbatim>\<open>update_status_code\<close>: a check that accepts, and an update that writes nothing.
\<close>

definition example_check :: "unit \<Rightarrow> bool" where
  "example_check configuration = True"

definition example_update :: "json \<Rightarrow> json \<Rightarrow> call list \<Rightarrow> (error + json) \<times> call list" where
  "example_update ms status_code log = (Inr (JList []), log)"

section \<open>Properties of the filter predicates\<close>

lemma length_filter_all: "(length (filter P xs) = length xs) = (\<forall>x \<in> set xs. P x)"
proof (induction xs)
  case Nil
  show ?case by simp
next
  case (Cons x xs)
  have "length (filter P xs) \<le> length xs" by simp
  then have "length (filter P xs) \<noteq> Suc (length xs)" by linarith
  with Cons show ?case by auto
qed

lemma key_present: "(k \<in> set (map fst n)) = (map_of n k \<noteq> None)"
  by (simp add: map_of_eq_None_iff)

lemma strict_loop_spec: "strict_loop n flt =
    (\<forall>(k, v) \<in> set flt. py_eq v (case map_of n k of None \<Rightarrow> JNull | Some w \<Rightarrow> w))"
proof (induction flt)
  case Nil
  show ?case by simp
next
  case (Cons kv flt)
  obtain k v where kv: "kv = (k, v)" by (cases kv)
  show ?case unfolding kv using Cons by (simp add: Let_def)
qed

lemma strict_filter_spec: "strict_filter (JObj n) (JObj flt) = Inr (strict_spec n flt)"
proof (cases "\<forall>kv \<in> set flt. map_of n (fst kv) \<noteq> None")
  case True
  then have "strict_loop n flt = strict_spec n flt"
    unfolding strict_loop_spec strict_spec_def
    by (fastforce split: option.splits)
  moreover from True
  have "length (filter (\<lambda>k. k \<in> set (map fst n)) (map fst flt)) = length (map fst flt)"
    unfolding length_filter_all key_present by simp
  ultimately show ?thesis
    by (simp only: strict_filter.simps Let_def not_True_eq_False if_False refl)
next
  case False
  then obtain k v where kv: "(k, v) \<in> set flt" "map_of n k = None"
    by auto
  then have "\<not> strict_spec n flt"
    unfolding strict_spec_def by (force intro: bexI [of _ "(k, v)"])
  moreover from kv
  have "length (filter (\<lambda>k. k \<in> set (map fst n)) (map fst flt)) \<noteq> length (map fst flt)"
    unfolding length_filter_all key_present by force
  ultimately show ?thesis
    by (simp only: strict_filter.simps Let_def if_True simp_thms)
qed

lemma filter_loop_no_limit:
  "limit \<le> 0 \<Longrightarrow> \<forall>m \<in> set ms. matches_of flt strict m = Inr (P m) \<Longrightarrow>
   filter_loop flt strict limit ms acc c = Inr (acc @ filter P ms)"
  by (induction ms arbitrary: acc c) (auto simp: Let_def)

lemma filter_mappings_no_limit:
  assumes "lists srv ms" and "limit \<le> 0"
    and "\<forall>m \<in> set ms. matches_of flt strict m = Inr (P m)"
  shows "filter_mappings srv flt strict limit log = (Inr (filter P ms), log @ [Get_mappings])"
proof -
  from assms(1) have "mappings srv log = (Inr (JList ms), log @ [Get_mappings])"
    by (auto simp: lists_def mappings_def Let_def split: prod.splits)
  with filter_loop_no_limit [OF assms(2,3), of "[]" 0] show ?thesis
    by (simp add: filter_mappings_def)
qed

lemma matches_of_strict:
  "request_block m = Some n \<Longrightarrow> matches_of (JObj flt) True m = Inr (strict_spec n flt)"
  by (cases m)
    (auto simp: matches_of_def strict_filter_spec simp del: strict_filter.simps
          split: option.splits json.splits)


lemma example_lists: "lists example_server [mapping_get, mapping_post]"
  by (simp add: lists_def example_server_def)

lemma example_request_blocks:
  "request_block mapping_get = Some [(''method'', JStr ''GET''), (''url'', JStr ''/x'')]"
  "request_block mapping_post = Some [(''method'', JStr ''POST''), (''url'', JStr ''/y'')]"
  by (simp_all add: mapping_get_def mapping_post_def)

text \<open>
  C1. The strict predicate holds exactly when every key of the filter is a key of the
  node and the node's value there equals the filter's value. Strict filtering over
  mappings that have a request block therefore returns exactly the mappings whose
  request block satisfies this, in listing order.
\<close>

theorem strict_filter_correct:
  "strict_filter (JObj n) (JObj flt) =
     Inr (\<forall>(k, v) \<in> set flt. case map_of n k of None \<Rightarrow> False | Some w \<Rightarrow> py_eq v w)
   \<and> (lists srv ms \<longrightarrow> (\<forall>m \<in> set ms. request_block m \<noteq> None) \<longrightarrow>
        filter_mappings srv (JObj flt) True 0 log =
          (Inr (filter (\<lambda>m. strict_spec (the (request_block m)) flt) ms),
           log @ [Get_mappings]))"
proof (intro conjI impI)
  show "strict_filter (JObj n) (JObj flt) =
     Inr (\<forall>(k, v) \<in> set flt. case map_of n k of None \<Rightarrow> False | Some w \<Rightarrow> py_eq v w)"
    using strict_filter_spec [of n flt] by (simp only: strict_spec_def)
next
  assume l: "lists srv ms" and r: "\<forall>m \<in> set ms. request_block m \<noteq> None"
  have "\<forall>m \<in> set ms. matches_of (JObj flt) True m
          = Inr (strict_spec (the (request_block m)) flt)"
  proof
    fix m assume "m \<in> set ms"
    with r obtain n where "request_block m = Some n" by auto
    then show "matches_of (JObj flt) True m = Inr (strict_spec (the (request_block m)) flt)"
      using matches_of_strict by simp
  qed
  with l show "filter_mappings srv (JObj flt) True 0 log =
      (Inr (filter (\<lambda>m. strict_spec (the (request_block m)) flt) ms), log @ [Get_mappings])"
    by (intro filter_mappings_no_limit) simp_all
qed

theorem strict_filter_correct_witness:
  "strict_filter (JObj [(''method'', JStr ''GET''), (''url'', JStr ''/x'')])
                 (JObj [(''method'', JStr ''GET'')]) = Inr True
   \<and> strict_filter (JObj [(''method'', JStr ''POST''), (''url'', JStr ''/y'')])
                 (JObj [(''method'', JStr ''GET'')]) = Inr False
   \<and> strict_filter (JObj [(''url'', JStr ''/x'')]) (JObj [(''method'', JStr ''GET'')]) = Inr False
   \<and> lists example_server [mapping_get, mapping_post]
   \<and> request_block mapping_get \<noteq> None \<and> request_block mapping_post \<noteq> None
   \<and> filter_mappings example_server (JObj [(''method'', JStr ''GET'')]) True 0 [] =
       (Inr [mapping_get], [Get_mappings])"
  using strict_filter_correct [of "[(''method'', JStr ''GET''), (''url'', JStr ''/x'')]"
      "[(''method'', JStr ''GET'')]" example_server "[mapping_get, mapping_post]" "[]"]
    strict_filter_correct [of "[(''method'', JStr ''POST''), (''url'', JStr ''/y'')]"
      "[(''method'', JStr ''GET'')]" example_server "[mapping_get, mapping_post]" "[]"]
    strict_filter_correct [of "[(''url'', JStr ''/x'')]"
      "[(''method'', JStr ''GET'')]" example_server "[mapping_get, mapping_post]" "[]"]
    example_lists
  by (simp add: example_request_blocks strict_spec_def del: strict_filter.simps)









lemma matches_of_empty_recursive:
  "is_object m \<Longrightarrow> matches_of (JObj []) False m = Inr True"
  by (cases m) (simp_all add: matches_of_def)

text \<open>
  C10. Both predicates hold for the empty filter on every node, so filtering with the
  empty filter returns every listed mapping: in strict mode every mapping that has a
  request block, in recursive mode every mapping.
\<close>

theorem empty_filter_matches_all:
  "strict_filter (JObj n) (JObj []) = Inr True
   \<and> recursive_filter (JObj n) (JObj []) depth = Inr True
   \<and> (lists srv ms \<longrightarrow> (\<forall>m \<in> set ms. request_block m \<noteq> None) \<longrightarrow>
        filter_mappings srv (JObj []) True 0 log = (Inr ms, log @ [Get_mappings]))
   \<and> (lists srv ms \<longrightarrow> (\<forall>m \<in> set ms. is_object m) \<longrightarrow>
        filter_mappings srv (JObj []) False 0 log = (Inr ms, log @ [Get_mappings]))"
proof (intro conjI impI)
  show "strict_filter (JObj n) (JObj []) = Inr True" by simp
  show "recursive_filter (JObj n) (JObj []) depth = Inr True" by simp
next
  assume l: "lists srv ms" and r: "\<forall>m \<in> set ms. request_block m \<noteq> None"
  have "\<forall>m \<in> set ms. matches_of (JObj []) True m = Inr True"
  proof
    fix m assume "m \<in> set ms"
    with r obtain rq where "request_block m = Some rq" by auto
    from matches_of_strict [OF this, of "[]"]
    show "matches_of (JObj []) True m = Inr True" by (simp add: strict_spec_def)
  qed
  from filter_mappings_no_limit [OF l _ this, of 0 log]
  show "filter_mappings srv (JObj []) True 0 log = (Inr ms, log @ [Get_mappings])"
    by simp
next
  assume l: "lists srv ms" and r: "\<forall>m \<in> set ms. is_object m"
  then have "\<forall>m \<in> set ms. matches_of (JObj []) False m = Inr True"
    by (simp add: matches_of_empty_recursive)
  from filter_mappings_no_limit [OF l _ this, of 0 log]
  show "filter_mappings srv (JObj []) False 0 log = (Inr ms, log @ [Get_mappings])"
    by simp
qed

theorem empty_filter_matches_all_witness:
  "lists example_server [mapping_get, mapping_post]
   \<and> request_block mapping_get \<noteq> None \<and> request_block mapping_post \<noteq> None
   \<and> is_object mapping_get \<and> is_object mapping_post
   \<and> strict_filter (JObj [(''method'', JStr ''GET'')]) (JObj []) = Inr True
   \<and> recursive_filter (JObj [(''method'', JStr ''GET'')]) (JObj []) 0 = Inr True
   \<and> filter_mappings example_server (JObj []) True 0 [] =
        (Inr [mapping_get, mapping_post], [Get_mappings])
   \<and> filter_mappings example_server (JObj []) False 0 [] =
        (Inr [mapping_get, mapping_post], [Get_mappings])"
proof -
  have l: "lists example_server [mapping_get, mapping_post]" by (rule example_lists)
  have r: "\<forall>m \<in> set [mapping_get, mapping_post]. request_block m \<noteq> None"
    by (simp add: example_request_blocks)
  have ob: "\<forall>m \<in> set [mapping_get, mapping_post]. is_object m"
    by (simp add: mapping_get_def mapping_post_def)
  from l r ob
    empty_filter_matches_all [of "[(''method'', JStr ''GET'')]" 0 example_server
      "[mapping_get, mapping_post]" "[]"]
  show ?thesis by simp
qed

lemma filter_loop_limit_one:
  "filter_loop flt strict 1 ms [] 0 = Inr r \<Longrightarrow> length r \<le> 1"
proof (induction ms)
  case Nil
  then show ?case by simp
next
  case (Cons m ms)
  then show ?case
    by (cases "matches_of flt strict m") (auto simp: Let_def split: if_splits)
qed

lemma filter_mappings_limit_one:
  assumes "filter_mappings srv flt strict 1 log = (Inr r, log')"
  shows "length r \<le> 1"
proof -
  from assms obtain xs where "filter_loop flt strict 1 xs [] 0 = Inr r"
    by (auto simp: filter_mappings_def split: prod.splits sum.splits)
  then show ?thesis by (rule filter_loop_limit_one)
qed

text \<open>
  C3. \<^verbatim>\<open>filter_mapping\<close> collects at most one match and then reads index 1 of
  the collected list: whenever some mapping matches, the read is out of bounds and
  the function raises \<^verbatim>\<open>IndexError\<close> instead of returning the first match.
\<close>

theorem filter_mapping_index_error:
  assumes "filter_mappings srv flt strict 1 log = (Inr (m # r), log')"
  shows "filter_mapping srv flt strict log = (Inl IndexError, log')"
proof -
  from filter_mappings_limit_one [OF assms] have "r = []" by simp
  with assms show ?thesis by (simp add: filter_mapping_def)
qed

lemma filter_mapping_no_match:
  "filter_mappings srv flt strict 1 log = (Inr [], log') \<Longrightarrow>
   filter_mapping srv flt strict log = (Inr JNull, log')"
  by (simp add: filter_mapping_def)

lemma filter_mapping_returns_no_mapping:
  assumes "filter_mapping srv flt strict log = (Inr v, log')"
  shows "v = JNull"
proof (cases "filter_mappings srv flt strict 1 log")
  case (Pair res log1)
  show ?thesis
  proof (cases res)
    case (Inl e)
    with Pair assms show ?thesis by (simp add: filter_mapping_def)
  next
    case (Inr matching)
    with Pair have "length matching \<le> 1" by (auto dest: filter_mappings_limit_one)
    with Pair Inr assms show ?thesis
      by (auto simp: filter_mapping_def split: if_splits)
  qed
qed

lemma example_first_match:
  "filter_mappings example_server (JObj [(''method'', JStr ''GET'')]) True 1 [] =
     (Inr [mapping_get], [Get_mappings])"
  by (simp add: filter_mappings_def mappings_def example_server_def matches_of_def
        mapping_get_def mapping_post_def Let_def)

theorem filter_mapping_index_error_witness:
  "filter_mappings example_server (JObj [(''method'', JStr ''GET'')]) True 1 [] =
     (Inr [mapping_get], [Get_mappings])
   \<and> filter_mapping example_server (JObj [(''method'', JStr ''GET'')]) True [] =
     (Inl IndexError, [Get_mappings])"
  using filter_mapping_index_error [OF example_first_match] example_first_match
  by simp

text \<open>
  C4, as stated, fails: in recursive mode the predicate is evaluated on the whole
  mapping. The request block of the first example mapping satisfies the recursive
  predicate for a filter on its method, and recursive filtering does not return it.
\<close>

theorem recursive_mode_counterexample:
  "request_block mapping_get = Some [(''method'', JStr ''GET''), (''url'', JStr ''/x'')]
   \<and> recursive_filter (JObj [(''method'', JStr ''GET''), (''url'', JStr ''/x'')])
        (JObj [(''method'', JStr ''GET'')]) 0 = Inr True
   \<and> filter_mappings example_server (JObj [(''method'', JStr ''GET'')]) False 0 [] =
        (Inr [], [Get_mappings])"
  by (simp add: filter_mappings_def mappings_def example_server_def matches_of_def
        mapping_get_def mapping_post_def Let_def)

text \<open>
  C4, amended. In strict mode the strict predicate is evaluated on the mapping's
  request block; in recursive mode the recursive predicate is evaluated on the whole
  mapping. Without a limit the result is the listed mappings that pass, in order.
\<close>

theorem filter_mappings_nodes:
  "(lists srv ms \<longrightarrow> (\<forall>m \<in> set ms. request_block m \<noteq> None) \<longrightarrow>
      filter_mappings srv (JObj flt) True 0 log =
        (Inr (filter (\<lambda>m. strict_filter (JObj (the (request_block m))) (JObj flt) = Inr True) ms),
         log @ [Get_mappings]))
   \<and> (lists srv ms \<longrightarrow> (\<forall>m \<in> set ms. \<not> isl (recursive_filter m rflt 0)) \<longrightarrow>
      filter_mappings srv rflt False 0 log =
        (Inr (filter (\<lambda>m. recursive_filter m rflt 0 = Inr True) ms), log @ [Get_mappings]))"
proof (intro conjI impI)
  assume l: "lists srv ms" and r: "\<forall>m \<in> set ms. request_block m \<noteq> None"
  have "\<forall>m \<in> set ms. matches_of (JObj flt) True m =
          Inr (strict_filter (JObj (the (request_block m))) (JObj flt) = Inr True)"
  proof
    fix m assume "m \<in> set ms"
    with r obtain rq where rq: "request_block m = Some rq" by auto
    from matches_of_strict [OF this, of flt] rq
    show "matches_of (JObj flt) True m =
          Inr (strict_filter (JObj (the (request_block m))) (JObj flt) = Inr True)"
      by (simp add: strict_filter_spec del: strict_filter.simps)
  qed
  from filter_mappings_no_limit [OF l _ this, of 0 log]
  show "filter_mappings srv (JObj flt) True 0 log =
        (Inr (filter (\<lambda>m. strict_filter (JObj (the (request_block m))) (JObj flt) = Inr True) ms),
         log @ [Get_mappings])"
    by simp
next
  assume l: "lists srv ms" and r: "\<forall>m \<in> set ms. \<not> isl (recursive_filter m rflt 0)"
  have "\<forall>m \<in> set ms. matches_of rflt False m = Inr (recursive_filter m rflt 0 = Inr True)"
  proof
    fix m assume "m \<in> set ms"
    with r have "\<not> isl (recursive_filter m rflt 0)" by blast
    then show "matches_of rflt False m = Inr (recursive_filter m rflt 0 = Inr True)"
      by (cases "recursive_filter m rflt 0") (auto simp: matches_of_def)
  qed
  from filter_mappings_no_limit [OF l _ this, of 0 log]
  show "filter_mappings srv rflt False 0 log =
        (Inr (filter (\<lambda>m. recursive_filter m rflt 0 = Inr True) ms), log @ [Get_mappings])"
    by simp
qed

theorem filter_mappings_nodes_witness:
  "lists example_server [mapping_get, mapping_post]
   \<and> request_block mapping_get \<noteq> None \<and> request_block mapping_post \<noteq> None
   \<and> \<not> isl (recursive_filter mapping_get
               (JObj [(''request'', JObj [(''method'', JStr ''GET'')])]) 0)
   \<and> \<not> isl (recursive_filter mapping_post
               (JObj [(''request'', JObj [(''method'', JStr ''GET'')])]) 0)
   \<and> filter_mappings example_server (JObj [(''method'', JStr ''GET'')]) True 0 [] =
        (Inr [mapping_get], [Get_mappings])
   \<and> filter_mappings example_server
        (JObj [(''request'', JObj [(''method'', JStr ''GET'')])]) False 0 [] =
        (Inr [mapping_get], [Get_mappings])"
proof -
  have l: "lists example_server [mapping_get, mapping_post]" by (rule example_lists)
  have r: "\<forall>m \<in> set [mapping_get, mapping_post]. request_block m \<noteq> None"
    by (simp add: example_request_blocks)
  have e: "recursive_filter mapping_get
             (JObj [(''request'', JObj [(''method'', JStr ''GET'')])]) 0 = Inr True"
          "recursive_filter mapping_post
             (JObj [(''request'', JObj [(''method'', JStr ''GET'')])]) 0 = Inr False"
    by (simp_all add: mapping_get_def mapping_post_def Let_def)
  have s: "strict_filter (JObj [(''method'', JStr ''GET''), (''url'', JStr ''/x'')])
             (JObj [(''method'', JStr ''GET'')]) = Inr True"
          "strict_filter (JObj [(''method'', JStr ''POST''), (''url'', JStr ''/y'')])
             (JObj [(''method'', JStr ''GET'')]) = Inr False"
    by (simp_all add: Let_def)
  from l r e s filter_mappings_nodes [of example_server "[mapping_get, mapping_post]"
      "[(''method'', JStr ''GET'')]" "[]" "JObj [(''request'', JObj [(''method'', JStr ''GET'')])]"]
  show ?thesis
    by (simp add: example_request_blocks del: strict_filter.simps recursive_filter.simps)
qed

section \<open>Properties of the mutation operations\<close>

text \<open>
  C6. For a fault that is not one of the four available faults, \<^verbatim>\<open>update_fault\<close>
  returns \<^verbatim>\<open>None\<close>, leaves the mappings it was handed as they are and leaves the
  log of calls as it is: the fault is checked before any call to the server.
\<close>

theorem update_fault_rejects:
  "fault \<notin> set AVAILABLE_FAULTS \<Longrightarrow> update_fault srv ms fault log = (Inr JNull, ms, log)"
  by (cases ms) (simp_all add: update_fault_def)

theorem update_fault_rejects_witness:
  "''NOT_A_FAULT'' \<notin> set AVAILABLE_FAULTS
   \<and> update_fault example_server (JList [mapping_get, mapping_post]) ''NOT_A_FAULT'' [] =
       (Inr JNull, JList [mapping_get, mapping_post], [])"
proof -
  have h: "''NOT_A_FAULT'' \<notin> set AVAILABLE_FAULTS" by (simp add: AVAILABLE_FAULTS_def)
  from h update_fault_rejects [OF h] show ?thesis by simp
qed

lemma update_fault_accepts_example:
  "update_fault example_server (JList [mapping_get]) ''EMPTY_RESPONSE'' [] =
     (Inr (JList [JInt 1]),
      JList [JObj [(''id'', JInt 1),
        (''request'', JObj [(''method'', JStr ''GET''), (''url'', JStr ''/x'')]),
        (''response'', JObj [(''status'', JInt 200), (''body'', JStr ''old''),
                             (''fault'', JStr ''EMPTY_RESPONSE'')])]],
      [Put_mapping (JInt 1) (JObj [(''id'', JInt 1),
        (''request'', JObj [(''method'', JStr ''GET''), (''url'', JStr ''/x'')]),
        (''response'', JObj [(''status'', JInt 200), (''body'', JStr ''old''),
                             (''fault'', JStr ''EMPTY_RESPONSE'')])])])"
  by (simp add: update_fault_def AVAILABLE_FAULTS_def mapping_get_def set_response_def
        update_mapping_def example_server_def)

lemma update_fault_refused_example:
  "update_fault refusing_server (JList [mapping_get, mapping_post]) ''EMPTY_RESPONSE'' [] =
     (Inr JNull,
      JList [JObj [(''id'', JInt 1),
        (''request'', JObj [(''method'', JStr ''GET''), (''url'', JStr ''/x'')]),
        (''response'', JObj [(''status'', JInt 200), (''body'', JStr ''old''),
                             (''fault'', JStr ''EMPTY_RESPONSE'')])], mapping_post],
      [Put_mapping (JInt 1) (JObj [(''id'', JInt 1),
        (''request'', JObj [(''method'', JStr ''GET''), (''url'', JStr ''/x'')]),
        (''response'', JObj [(''status'', JInt 200), (''body'', JStr ''old''),
                             (''fault'', JStr ''EMPTY_RESPONSE'')])])])"
  by (simp add: update_fault_def AVAILABLE_FAULTS_def mapping_get_def set_response_def
        update_mapping_def refusing_server_def)

lemma well_formed_cases:
  assumes "well_formed m"
  obtains d i r where "m = JObj d" "map_of d ''id'' = Some i" "map_of d ''response'' = Some (JObj r)"
  using assms by (cases m) (auto split: option.splits json.splits)

lemma set_response_ok:
  assumes "well_formed m"
  shows "\<exists>m'. set_response m k v = Inr m' \<and> well_formed m' \<and> mapping_id m' = mapping_id m
           \<and> response_field m' k = Some v
           \<and> (\<forall>k'. k' \<noteq> k \<longrightarrow> response_field m' k' = response_field m k')"
proof -
  from assms obtain d i r where m: "m = JObj d" "map_of d ''id'' = Some i"
      "map_of d ''response'' = Some (JObj r)"
    by (rule well_formed_cases)
  let ?m' = "JObj (AList.update ''response'' (JObj (AList.update k v r)) d)"
  from m have "set_response m k v = Inr ?m'" by (simp add: set_response_def)
  moreover from m have "well_formed ?m'" by (simp add: update_conv')
  moreover from m have "mapping_id ?m' = mapping_id m" by (simp add: update_conv')
  moreover have "response_field ?m' k = Some v" by (simp add: update_conv')
  moreover from m have "\<forall>k'. k' \<noteq> k \<longrightarrow> response_field ?m' k' = response_field m k'"
    by (simp add: update_conv')
  ultimately show ?thesis by blast
qed

lemma well_formed_id: "well_formed m \<Longrightarrow> py_getitem m ''id'' = Inr (the (mapping_id m))"
  by (erule well_formed_cases) simp

lemma update_mapping_log:
  "update_mapping srv ident m log = (fst (update_mapping srv ident m []), log @ [Put_mapping ident m])"
  by (simp add: update_mapping_def Let_def split: prod.splits)

lemma status_fields_ok:
  assumes "well_formed m" "py_truthy body" "\<not> py_truthy bfn"
  shows "\<exists>m1 m'. set_response m ''status'' sc = Inr m1
           \<and> set_body_fields m1 body bfn = Inr m' \<and> well_formed m'
           \<and> mapping_id m' = mapping_id m
           \<and> response_field m' ''status'' = Some sc
           \<and> response_field m' ''body'' = Some body
           \<and> response_field m' ''bodyFileName'' = Some JNull"
proof -
  from set_response_ok [OF assms(1), of "''status''" sc]
  obtain m1 where m1: "set_response m ''status'' sc = Inr m1" "well_formed m1"
      "mapping_id m1 = mapping_id m" "response_field m1 ''status'' = Some sc"
    by blast
  from set_response_ok [OF m1(2), of "''bodyFileName''" JNull]
  obtain m2 where m2: "set_response m1 ''bodyFileName'' JNull = Inr m2" "well_formed m2"
      "mapping_id m2 = mapping_id m1" "response_field m2 ''bodyFileName'' = Some JNull"
      "\<forall>k'. k' \<noteq> ''bodyFileName'' \<longrightarrow> response_field m2 k' = response_field m1 k'"
    by blast
  from set_response_ok [OF m2(2), of "''body''" body]
  obtain m3 where m3: "set_response m2 ''body'' body = Inr m3" "well_formed m3"
      "mapping_id m3 = mapping_id m2" "response_field m3 ''body'' = Some body"
      "\<forall>k'. k' \<noteq> ''body'' \<longrightarrow> response_field m3 k' = response_field m2 k'"
    by blast
  from assms(2,3) m2(1) m3(1) have "set_body_fields m1 body bfn = Inr m3"
    by (simp add: set_body_fields_def)
  moreover from m3(5) m2(5) m1(4) have "response_field m3 ''status'' = Some sc" by simp
  moreover from m3(5) m2(4) have "response_field m3 ''bodyFileName'' = Some JNull" by simp
  ultimately show ?thesis using m1 m2 m3 by simp
qed

lemma status_loop_ok:
  assumes "py_truthy body" "\<not> py_truthy bfn" "accepts srv"
  shows "\<forall>m \<in> set xs. well_formed m \<Longrightarrow>
     \<exists>xs'. status_loop srv sc body bfn xs ids log =
              (Inr (JList (ids @ map (\<lambda>m. the (mapping_id m)) xs)), xs',
               log @ map (\<lambda>m'. Put_mapping (the (mapping_id m')) m') xs')
           \<and> list_all2 (status_done sc body) xs xs'"
proof (induction xs arbitrary: ids log)
  case Nil
  show ?case by simp
next
  case (Cons m xs)
  then have wf: "well_formed m" and rest: "\<forall>m \<in> set xs. well_formed m" by simp_all
  from status_fields_ok [OF wf assms(1,2), of sc]
  obtain m1 m' where st: "set_response m ''status'' sc = Inr m1"
      "set_body_fields m1 body bfn = Inr m'" "well_formed m'"
      "mapping_id m' = mapping_id m" and dn: "status_done sc body m m'"
    unfolding status_done_def by blast
  let ?i = "the (mapping_id m)"
  from assms(3) st(3) have ok: "py_truthy (fst (update_mapping srv ?i m' []))"
    by (simp add: accepts_def write_ok_def)
  from Cons.IH [OF rest, of "ids @ [?i]" "log @ [Put_mapping ?i m']"]
  obtain xs' where xs': "status_loop srv sc body bfn xs (ids @ [?i]) (log @ [Put_mapping ?i m']) =
              (Inr (JList ((ids @ [?i]) @ map (\<lambda>m. the (mapping_id m)) xs)), xs',
               (log @ [Put_mapping ?i m']) @ map (\<lambda>m'. Put_mapping (the (mapping_id m')) m') xs')"
      "list_all2 (status_done sc body) xs xs'"
    by blast
  have "status_loop srv sc body bfn (m # xs) ids log =
          (Inr (JList (ids @ map (\<lambda>m. the (mapping_id m)) (m # xs))), m' # xs',
           log @ map (\<lambda>m'. Put_mapping (the (mapping_id m')) m') (m' # xs'))"
    using st ok xs'(1) well_formed_id [OF wf]
    by (simp add: update_mapping_log [of srv ?i m' log])
  with xs'(2) dn show ?case by auto
qed


lemma py_int_examples:
  "py_int (JStr ''700'') = Inr 700"
  "py_int (JStr ''404'') = Inr 404"
  "py_int (JStr '' 5_0_3 '') = Inr 503"
  "py_int (JStr ''-1'') = Inr (-1)"
  "py_int (JStr ''abc'') = Inl ValueError"
  "py_int (JStr ''4__4'') = Inl ValueError"
  "py_int (JStr []) = Inl ValueError"
  "py_int (JStr [CHR 0x1C, CHR ''4'', CHR ''0'', CHR ''4'']) = Inl ValueError"
  "py_int (JStr [CHR 0x09, CHR ''4'', CHR ''0'', CHR ''4'', CHR 0x0A]) = Inr 404"
  "py_int JNull = Inl TypeError"
  by (simp_all add: parse_int_def parse_unsigned_def is_space_def is_digit_def digit_val_def
        Let_def)

lemma well_formed_truthy: "well_formed m \<Longrightarrow> py_truthy m"
  by (erule well_formed_cases) auto

lemma example_accepts: "accepts example_server"
  by (simp add: accepts_def write_ok_def update_mapping_def example_server_def
        well_formed_truthy)

lemma example_well_formed: "\<forall>m \<in> set [mapping_get, mapping_post]. well_formed m"
  by (simp add: mapping_get_def mapping_post_def)

lemma separator_status_rejected_example:
  "update_status_code_and_body example_server (JList [mapping_get, mapping_post])
     (JStr [CHR 0x1C, CHR ''4'', CHR ''0'', CHR ''4'']) (JStr ''gone'') JNull [] =
     (Inr JNull, JList [mapping_get, mapping_post], [])"
  by (simp add: update_status_code_and_body_def py_int_examples del: py_int.simps)

text \<open>
  C5, as stated, fails for the empty body string: the source tests \<^verbatim>\<open>elif body:\<close>,
  so with an empty string (and no body file name) only the status is set and the
  mapping keeps the body it had.
\<close>

theorem empty_body_counterexample:
  "update_status_code_and_body example_server (JList [mapping_get]) (JStr ''404'') (JStr [])
       JNull [] =
     (Inr (JList [JInt 1]), JList [mapping_get_status],
      [Put_mapping (JInt 1) mapping_get_status])
   \<and> response_field mapping_get_status ''body'' = Some (JStr ''old'')
   \<and> response_field mapping_get_status ''body'' \<noteq> Some (JStr [])"
  by (simp add: update_status_code_and_body_def py_int_examples mapping_get_def
        mapping_get_status_def set_response_def set_body_fields_def update_mapping_def
        example_server_def del: py_int.simps)

text \<open>
  C5, amended. A status code that \<^verbatim>\<open>int\<close> rejects, or whose number lies outside
  100..599, makes \<^verbatim>\<open>update_status_code_and_body\<close> return \<^verbatim>\<open>None\<close> with the
  mappings and the log of calls unchanged. With a status code in range, a non-empty
  body and no body file name, on well-formed mappings and a server that accepts the
  writes, every listed mapping gets the status code, the body and a null
  \<^verbatim>\<open>bodyFileName\<close>, is written back in order as changed, and the ids are returned.
\<close>

theorem update_status_code_and_body_correct:
  "((case py_int sc of Inl e \<Rightarrow> True | Inr n \<Rightarrow> n < 100 \<or> 599 < n) \<longrightarrow>
      update_status_code_and_body srv ms sc body bfn log = (Inr JNull, ms, log))
   \<and> ((case py_int sc of Inl e \<Rightarrow> False | Inr n \<Rightarrow> 100 \<le> n \<and> n \<le> 599) \<longrightarrow>
       py_truthy body \<longrightarrow> \<not> py_truthy bfn \<longrightarrow> (\<forall>m \<in> set xs. well_formed m) \<longrightarrow>
       accepts srv \<longrightarrow>
       (\<exists>xs'. update_status_code_and_body srv (JList xs) sc body bfn log =
                 (Inr (JList (map (\<lambda>m. the (mapping_id m)) xs)), JList xs',
                  log @ map (\<lambda>m'. Put_mapping (the (mapping_id m')) m') xs')
              \<and> list_all2 (status_done sc body) xs xs'))"
proof (intro conjI impI)
  assume "case py_int sc of Inl e \<Rightarrow> True | Inr n \<Rightarrow> n < 100 \<or> 599 < n"
  then show "update_status_code_and_body srv ms sc body bfn log = (Inr JNull, ms, log)"
    by (cases ms; cases "py_int sc") (auto simp: update_status_code_and_body_def)
next
  assume sc: "case py_int sc of Inl e \<Rightarrow> False | Inr n \<Rightarrow> 100 \<le> n \<and> n \<le> 599"
    and b: "py_truthy body" "\<not> py_truthy bfn"
    and wf: "\<forall>m \<in> set xs. well_formed m" and acc: "accepts srv"
  from status_loop_ok [OF b acc wf, of sc "[]" log]
  obtain xs' where xs': "status_loop srv sc body bfn xs [] log =
              (Inr (JList (map (\<lambda>m. the (mapping_id m)) xs)), xs',
               log @ map (\<lambda>m'. Put_mapping (the (mapping_id m')) m') xs')"
      "list_all2 (status_done sc body) xs xs'"
    by auto
  from sc xs'(1) have "update_status_code_and_body srv (JList xs) sc body bfn log =
                 (Inr (JList (map (\<lambda>m. the (mapping_id m)) xs)), JList xs',
                  log @ map (\<lambda>m'. Put_mapping (the (mapping_id m')) m') xs')"
    by (cases "py_int sc") (auto simp: update_status_code_and_body_def)
  with xs'(2) show "\<exists>xs'. update_status_code_and_body srv (JList xs) sc body bfn log =
                 (Inr (JList (map (\<lambda>m. the (mapping_id m)) xs)), JList xs',
                  log @ map (\<lambda>m'. Put_mapping (the (mapping_id m')) m') xs')
              \<and> list_all2 (status_done sc body) xs xs'"
    by blast
qed

theorem update_status_code_and_body_correct_witness:
  "(case py_int (JStr ''700'') of Inl e \<Rightarrow> True | Inr n \<Rightarrow> n < 100 \<or> 599 < n)
   \<and> update_status_code_and_body example_server (JList [mapping_get, mapping_post])
        (JStr ''700'') (JStr ''gone'') JNull [] =
        (Inr JNull, JList [mapping_get, mapping_post], [])
   \<and> (case py_int (JStr ''404'') of Inl e \<Rightarrow> False | Inr n \<Rightarrow> 100 \<le> n \<and> n \<le> 599)
   \<and> py_truthy (JStr ''gone'') \<and> \<not> py_truthy JNull
   \<and> well_formed mapping_get \<and> well_formed mapping_post
   \<and> accepts example_server
   \<and> (\<exists>xs'. update_status_code_and_body example_server (JList [mapping_get, mapping_post])
                (JStr ''404'') (JStr ''gone'') JNull [] =
                 (Inr (JList [JInt 1, JInt 2]), JList xs',
                  map (\<lambda>m'. Put_mapping (the (mapping_id m')) m') xs')
              \<and> list_all2 (status_done (JStr ''404'') (JStr ''gone''))
                   [mapping_get, mapping_post] xs')"
proof -
  have a: "case py_int (JStr ''700'') of Inl e \<Rightarrow> True | Inr n \<Rightarrow> n < 100 \<or> 599 < n"
    by (simp add: py_int_examples del: py_int.simps)
  have b: "case py_int (JStr ''404'') of Inl e \<Rightarrow> False | Inr n \<Rightarrow> 100 \<le> n \<and> n \<le> 599"
    by (simp add: py_int_examples del: py_int.simps)
  have ids: "map (\<lambda>m. the (mapping_id m)) [mapping_get, mapping_post] = [JInt 1, JInt 2]"
    by (simp add: mapping_get_def mapping_post_def)
  from a update_status_code_and_body_correct [of "JStr ''700''" example_server
      "JList [mapping_get, mapping_post]" "JStr ''gone''" JNull "[]" "[]"]
  have one: "update_status_code_and_body example_server (JList [mapping_get, mapping_post])
        (JStr ''700'') (JStr ''gone'') JNull [] =
        (Inr JNull, JList [mapping_get, mapping_post], [])"
    by blast
  from b example_well_formed example_accepts
    update_status_code_and_body_correct [of "JStr ''404''" example_server
      "JList [mapping_get, mapping_post]" "JStr ''gone''" JNull "[]"
      "[mapping_get, mapping_post]"]
  have two: "\<exists>xs'. update_status_code_and_body example_server (JList [mapping_get, mapping_post])
                (JStr ''404'') (JStr ''gone'') JNull [] =
                 (Inr (JList [JInt 1, JInt 2]), JList xs',
                  map (\<lambda>m'. Put_mapping (the (mapping_id m')) m') xs')
              \<and> list_all2 (status_done (JStr ''404'') (JStr ''gone''))
                   [mapping_get, mapping_post] xs'"
    unfolding ids by simp
  from a b one two example_well_formed example_accepts show ?thesis by simp
qed

lemma delay_fields_ok:
  assumes "well_formed m"
  shows "\<exists>m1 m2. set_response m ''fixedDelayMilliseconds'' d = Inr m1
           \<and> set_response m1 ''delayDistribution'' JNull = Inr m2
           \<and> well_formed m2 \<and> delay_done d m m2"
proof -
  from set_response_ok [OF assms, of "''fixedDelayMilliseconds''" d]
  obtain m1 where m1: "set_response m ''fixedDelayMilliseconds'' d = Inr m1" "well_formed m1"
      "mapping_id m1 = mapping_id m" "response_field m1 ''fixedDelayMilliseconds'' = Some d"
    by blast
  from set_response_ok [OF m1(2), of "''delayDistribution''" JNull]
  obtain m2 where m2: "set_response m1 ''delayDistribution'' JNull = Inr m2" "well_formed m2"
      "mapping_id m2 = mapping_id m1" "response_field m2 ''delayDistribution'' = Some JNull"
      "\<forall>k'. k' \<noteq> ''delayDistribution'' \<longrightarrow> response_field m2 k' = response_field m1 k'"
    by blast
  from m2(5) m1(4) have "response_field m2 ''fixedDelayMilliseconds'' = Some d" by simp
  with m1 m2 show ?thesis by (simp add: delay_done_def)
qed

lemma delay_loop_ok:
  "\<forall>m \<in> set xs. well_formed m \<Longrightarrow>
     \<exists>xs'. delay_loop srv d xs ids log =
              (Inr (JList (ids @ map (\<lambda>m'. the (mapping_id m'))
                                (filter (\<lambda>m'. write_ok srv (the (mapping_id m')) m') xs'))),
               xs', log @ map (\<lambda>m'. Put_mapping (the (mapping_id m')) m') xs')
           \<and> list_all2 (delay_done d) xs xs'"
proof (induction xs arbitrary: ids log)
  case Nil
  show ?case by simp
next
  case (Cons m xs)
  then have wf: "well_formed m" and rest: "\<forall>m \<in> set xs. well_formed m" by simp_all
  from delay_fields_ok [OF wf, of d]
  obtain m1 m2 where st: "set_response m ''fixedDelayMilliseconds'' d = Inr m1"
      "set_response m1 ''delayDistribution'' JNull = Inr m2" "well_formed m2"
    and dn: "delay_done d m m2"
    by blast
  let ?i = "the (mapping_id m2)"
  let ?ids = "if write_ok srv ?i m2 then ids @ [?i] else ids"
  from Cons.IH [OF rest, of ?ids "log @ [Put_mapping ?i m2]"]
  obtain xs' where xs': "delay_loop srv d xs ?ids (log @ [Put_mapping ?i m2]) =
              (Inr (JList (?ids @ map (\<lambda>m'. the (mapping_id m'))
                                (filter (\<lambda>m'. write_ok srv (the (mapping_id m')) m') xs'))),
               xs', (log @ [Put_mapping ?i m2]) @ map (\<lambda>m'. Put_mapping (the (mapping_id m')) m') xs')"
      "list_all2 (delay_done d) xs xs'"
    by blast
  have "delay_loop srv d (m # xs) ids log =
          (Inr (JList (ids @ map (\<lambda>m'. the (mapping_id m'))
                                (filter (\<lambda>m'. write_ok srv (the (mapping_id m')) m') (m2 # xs')))),
           m2 # xs', log @ map (\<lambda>m'. Put_mapping (the (mapping_id m')) m') (m2 # xs'))"
    using st xs'(1) well_formed_id [OF st(3)]
    by (simp add: update_mapping_log [of srv ?i m2 log] write_ok_def)
  with xs'(2) dn show ?case by auto
qed

text \<open>
  C9, as stated, fails on the word "absent": \<^verbatim>\<open>fixed_delay\<close> assigns \<^verbatim>\<open>None\<close>
  to \<^verbatim>\<open>response["delayDistribution"]\<close>, so the key is in the response block, bound
  to null, in the mapping it leaves and in the mapping it writes.
\<close>

theorem null_distribution_counterexample:
  "fixed_delay example_server (JList [mapping_get]) (JInt 300) [] =
     (Inr (JList [JInt 1]), JList [mapping_get_delayed],
      [Put_mapping (JInt 1) mapping_get_delayed])
   \<and> response_field mapping_get_delayed ''delayDistribution'' = Some JNull
   \<and> response_field mapping_get_delayed ''delayDistribution'' \<noteq> None"
  by (simp add: fixed_delay_def mapping_get_def mapping_get_delayed_def set_response_def
        update_mapping_def example_server_def)

text \<open>
  C9, amended. On well-formed mappings \<^verbatim>\<open>fixed_delay\<close> leaves every mapping with
  \<^verbatim>\<open>fixedDelayMilliseconds\<close> bound to the delay and \<^verbatim>\<open>delayDistribution\<close> bound to
  null, writes each one back in order as changed, and returns the ids of those whose
  write succeeded. The action \<^verbatim>\<open>fixed_delay\<close> does this to the mappings its filters
  resolve to, when there is at least one.
\<close>

theorem fixed_delay_correct:
  "((\<forall>m \<in> set xs. well_formed m) \<longrightarrow>
      (\<exists>xs'. fixed_delay srv (JList xs) d log =
                (Inr (JList (map (\<lambda>m'. the (mapping_id m'))
                               (filter (\<lambda>m'. write_ok srv (the (mapping_id m')) m') xs'))),
                 JList xs', log @ map (\<lambda>m'. Put_mapping (the (mapping_id m')) m') xs')
             \<and> list_all2 (delay_done d) xs xs'))
   \<and> (wm_client gwp conf = Inr w \<longrightarrow> py_iter flt = Inr fs \<longrightarrow>
        resolve_loop mbr mbm fs [] log = (Inr ys, log1) \<longrightarrow> ys \<noteq> [] \<longrightarrow>
        (\<forall>m \<in> set ys. well_formed m) \<longrightarrow>
      (\<exists>ys'. actions_fixed_delay gwp mbr mbm srv flt d conf log =
                (Inr (JList (map (\<lambda>m'. the (mapping_id m'))
                               (filter (\<lambda>m'. write_ok srv (the (mapping_id m')) m') ys'))),
                 log1 @ map (\<lambda>m'. Put_mapping (the (mapping_id m')) m') ys')
             \<and> list_all2 (delay_done d) ys ys'))"
proof (intro conjI impI)
  assume wf: "\<forall>m \<in> set xs. well_formed m"
  from delay_loop_ok [OF wf, of srv d "[]" log]
  show "\<exists>xs'. fixed_delay srv (JList xs) d log =
                (Inr (JList (map (\<lambda>m'. the (mapping_id m'))
                               (filter (\<lambda>m'. write_ok srv (the (mapping_id m')) m') xs'))),
                 JList xs', log @ map (\<lambda>m'. Put_mapping (the (mapping_id m')) m') xs')
             \<and> list_all2 (delay_done d) xs xs'"
    by (auto simp: fixed_delay_def)
next
  assume c: "wm_client gwp conf = Inr w" and it: "py_iter flt = Inr fs"
    and rs: "resolve_loop mbr mbm fs [] log = (Inr ys, log1)" and ne: "ys \<noteq> []"
    and wf: "\<forall>m \<in> set ys. well_formed m"
  from delay_loop_ok [OF wf, of srv d "[]" log1]
  obtain ys' where ys': "delay_loop srv d ys [] log1 =
              (Inr (JList (map (\<lambda>m'. the (mapping_id m'))
                                (filter (\<lambda>m'. write_ok srv (the (mapping_id m')) m') ys'))),
               ys', log1 @ map (\<lambda>m'. Put_mapping (the (mapping_id m')) m') ys')"
      "list_all2 (delay_done d) ys ys'"
    by auto
  from c it rs ne ys'(1)
  have "actions_fixed_delay gwp mbr mbm srv flt d conf log =
                (Inr (JList (map (\<lambda>m'. the (mapping_id m'))
                               (filter (\<lambda>m'. write_ok srv (the (mapping_id m')) m') ys'))),
                 log1 @ map (\<lambda>m'. Put_mapping (the (mapping_id m')) m') ys')"
    by (simp add: actions_fixed_delay_def fixed_delay_def)
  with ys'(2) show "\<exists>ys'. actions_fixed_delay gwp mbr mbm srv flt d conf log =
                (Inr (JList (map (\<lambda>m'. the (mapping_id m'))
                               (filter (\<lambda>m'. write_ok srv (the (mapping_id m')) m') ys'))),
                 log1 @ map (\<lambda>m'. Put_mapping (the (mapping_id m')) m') ys')
             \<and> list_all2 (delay_done d) ys ys'"
    by blast
qed


lemma fixed_delay_refused_example:
  "fixed_delay refusing_server (JList [mapping_get]) (JInt 300) [] =
     (Inr (JList []), JList [mapping_get_delayed],
      [Put_mapping (JInt 1) mapping_get_delayed])"
  by (simp add: fixed_delay_def mapping_get_def mapping_get_delayed_def set_response_def
        update_mapping_def refusing_server_def)

lemma example_resolve:
  "resolve_loop first_lookup first_lookup [JObj [(''method'', JStr ''GET'')]] [] [] =
     (Inr [mapping_get], [Get_mappings])"
  by (simp add: actions_filter_mappings_def builtin_filter_truthy_def first_lookup_def)

lemma example_client:
  "wm_client example_params () = Inr (JStr ''http://localhost:8080'', JInt 1)"
  by (simp add: wm_client_def example_params_def)

theorem fixed_delay_correct_witness:
  "well_formed mapping_get
   \<and> (\<exists>xs'. fixed_delay example_server (JList [mapping_get]) (JInt 300) [] =
               (Inr (JList (map (\<lambda>m'. the (mapping_id m'))
                  (filter (\<lambda>m'. write_ok example_server (the (mapping_id m')) m') xs'))),
                JList xs', map (\<lambda>m'. Put_mapping (the (mapping_id m')) m') xs')
             \<and> list_all2 (delay_done (JInt 300)) [mapping_get] xs')
   \<and> wm_client example_params () = Inr (JStr ''http://localhost:8080'', JInt 1)
   \<and> py_iter (JList [JObj [(''method'', JStr ''GET'')]]) = Inr [JObj [(''method'', JStr ''GET'')]]
   \<and> resolve_loop first_lookup first_lookup [JObj [(''method'', JStr ''GET'')]] [] [] =
       (Inr [mapping_get], [Get_mappings])
   \<and> [mapping_get] \<noteq> []
   \<and> (\<exists>ys'. actions_fixed_delay example_params first_lookup first_lookup example_server
                (JList [JObj [(''method'', JStr ''GET'')]]) (JInt 300) () [] =
               (Inr (JList (map (\<lambda>m'. the (mapping_id m'))
                  (filter (\<lambda>m'. write_ok example_server (the (mapping_id m')) m') ys'))),
                [Get_mappings] @ map (\<lambda>m'. Put_mapping (the (mapping_id m')) m') ys')
             \<and> list_all2 (delay_done (JInt 300)) [mapping_get] ys')"
proof -
  have wf: "\<forall>m \<in> set [mapping_get]. well_formed m"
    by (simp add: mapping_get_def)
  have it: "py_iter (JList [JObj [(''method'', JStr ''GET'')]]) = Inr [JObj [(''method'', JStr ''GET'')]]"
    by simp
  have ne: "[mapping_get] \<noteq> []" by simp
  note inst = fixed_delay_correct [of "[mapping_get]" example_server "JInt 300" "[]"
      example_params "()" "(JStr ''http://localhost:8080'', JInt 1)"
      "JList [JObj [(''method'', JStr ''GET'')]]" "[JObj [(''method'', JStr ''GET'')]]"
      first_lookup first_lookup "[mapping_get]" "[Get_mappings]"]
  from inst wf have one: "\<exists>xs'. fixed_delay example_server (JList [mapping_get]) (JInt 300) [] =
               (Inr (JList (map (\<lambda>m'. the (mapping_id m'))
                  (filter (\<lambda>m'. write_ok example_server (the (mapping_id m')) m') xs'))),
                JList xs', map (\<lambda>m'. Put_mapping (the (mapping_id m')) m') xs')
             \<and> list_all2 (delay_done (JInt 300)) [mapping_get] xs'"
    by simp
  from inst wf it ne example_client example_resolve
  have two: "\<exists>ys'. actions_fixed_delay example_params first_lookup first_lookup example_server
                (JList [JObj [(''method'', JStr ''GET'')]]) (JInt 300) () [] =
               (Inr (JList (map (\<lambda>m'. the (mapping_id m'))
                  (filter (\<lambda>m'. write_ok example_server (the (mapping_id m')) m') ys'))),
                [Get_mappings] @ map (\<lambda>m'. Put_mapping (the (mapping_id m')) m') ys')
             \<and> list_all2 (delay_done (JInt 300)) [mapping_get] ys'"
    by blast
  from wf have "well_formed mapping_get" by simp
  with it ne example_client example_resolve one two show ?thesis by blast
qed

section \<open>Properties of the actions\<close>

text \<open>
  C7. A filter description with both a \<^verbatim>\<open>request\<close> key and a \<^verbatim>\<open>metadata\<close> key
  makes \<^verbatim>\<open>_filter_mappings\<close> raise \<^verbatim>\<open>ValueError\<close>, whatever the two keys are bound
  to and whatever the driver's lookups would answer; the log of calls is unchanged, so
  no lookup and no write is made.
\<close>

theorem both_keys_rejected:
  "''request'' \<in> set (map fst f) \<Longrightarrow> ''metadata'' \<in> set (map fst f) \<Longrightarrow>
   actions_filter_mappings mbr mbm (JObj f) log = (Inl ValueError, log)"
  by (simp add: actions_filter_mappings_def Let_def)

theorem both_keys_rejected_witness:
  "''request'' \<in> set (map fst [(''request'', JObj [(''method'', JStr ''GET'')]), (''metadata'', JNull)])
   \<and> ''metadata'' \<in> set (map fst [(''request'', JObj [(''method'', JStr ''GET'')]), (''metadata'', JNull)])
   \<and> actions_filter_mappings first_lookup first_lookup
        (JObj [(''request'', JObj [(''method'', JStr ''GET'')]), (''metadata'', JNull)]) [] =
        (Inl ValueError, [])"
proof -
  have r: "''request'' \<in> set (map fst [(''request'', JObj [(''method'', JStr ''GET'')]), (''metadata'', JNull)])"
    by simp
  have m: "''metadata'' \<in> set (map fst [(''request'', JObj [(''method'', JStr ''GET'')]), (''metadata'', JNull)])"
    by simp
  from r m both_keys_rejected [OF r m, of first_lookup first_lookup "[]"]
  show ?thesis by blast
qed

lemma request_only_example:
  "actions_filter_mappings first_lookup first_lookup
     (JObj [(''request'', JObj [(''method'', JStr ''GET'')])]) [] =
     (Inr (JList [mapping_get]), [Get_mappings])"
  by (simp add: actions_filter_mappings_def builtin_filter_truthy_def first_lookup_def)

text \<open>
  C8. With a valid configuration and a non-empty status code,
  \<^verbatim>\<open>update_mappings_status_code\<close> on an empty filter list does not return the empty
  list: \<^verbatim>\<open>mappings_to_update\<close> is initialised to \<^verbatim>\<open>None\<close>, the loop does not run,
  and \<^verbatim>\<open>len(mappings_to_update)\<close> raises \<^verbatim>\<open>TypeError\<close>. No call is made.
\<close>

theorem empty_filter_list_type_error:
  "check_configuration conf \<Longrightarrow> py_truthy status_code \<Longrightarrow> wm_client gwp conf = Inr w \<Longrightarrow>
   update_mappings_status_code check_configuration gwp mbr usc status_code (JList []) conf log =
     (Inl TypeError, log)"
  by (simp add: update_mappings_status_code_def)

theorem empty_filter_list_type_error_witness:
  "example_check () \<and> py_truthy (JStr ''404'')
   \<and> wm_client example_params () = Inr (JStr ''http://localhost:8080'', JInt 1)
   \<and> update_mappings_status_code example_check example_params first_lookup example_update
        (JStr ''404'') (JList []) () [] =
        (Inl TypeError, [])"
proof -
  have c: "example_check ()" by (simp add: example_check_def)
  have s: "py_truthy (JStr ''404'')" by simp
  from c s example_client
    empty_filter_list_type_error [of example_check "()" "JStr ''404''" example_params
      "(JStr ''http://localhost:8080'', JInt 1)" first_lookup example_update "[]",
      OF c s example_client]
  show ?thesis by blast
qed

lemma nonempty_filter_list_error:
  "check_configuration conf \<Longrightarrow> py_truthy status_code \<Longrightarrow> wm_client gwp conf = Inr w \<Longrightarrow>
   isl (fst (update_mappings_status_code check_configuration gwp mbr usc status_code
               (JList fs) conf log))"
proof -
  have loop: "isl (fst (status_resolve_loop mbr fs JNull log)) \<or>
              fst (status_resolve_loop mbr fs JNull log) = Inr JNull" for log
  proof (induction fs arbitrary: log)
    case Nil
    show ?case by simp
  next
    case (Cons f fs)
    show ?case
    proof (cases "mbr f log")
      case (Pair res log')
      then show ?thesis
        by (cases res) (auto simp: not_found_line_def)
    qed
  qed
  assume "check_configuration conf" "py_truthy status_code" "wm_client gwp conf = Inr w"
  then show ?thesis
    using loop [of log]
    by (cases "status_resolve_loop mbr fs JNull log")
       (auto simp: update_mappings_status_code_def split: sum.splits)
qed

end
